theory Spec2Isabelle
  imports Main "HOL-Library.AList" "HOL-Library.Char_ord" "HOL-Library.List_Lexorder"
    "HOL-Library.Word"
begin

section \<open>Identifier normalizer (enscons/util.py)\<close>

text \<open>
  Python strings are modelled as \<open>string\<close>. The three normalizers only distinguish
  the ASCII letters, digits, \<open>.\<close>, \<open>-\<close> and \<open>_\<close>; every other character is treated
  alike (it lies outside both character classes of the regular expressions).
\<close>

definition is_upper :: "char \<Rightarrow> bool" where
  "is_upper c = (let n = (of_char c :: nat) in 65 \<le> n \<and> n \<le> 90)"

definition is_lower :: "char \<Rightarrow> bool" where
  "is_lower c = (let n = (of_char c :: nat) in 97 \<le> n \<and> n \<le> 122)"

definition is_digit :: "char \<Rightarrow> bool" where
  "is_digit c = (let n = (of_char c :: nat) in 48 \<le> n \<and> n \<le> 57)"

text \<open>The character class \<open>[A-Za-z0-9.]\<close> of \<open>safe_name\<close>.\<close>

definition name_char :: "char \<Rightarrow> bool" where
  "name_char c = (is_upper c \<or> is_lower c \<or> is_digit c \<or> c = CHR ''.'')"

text \<open>The character class \<open>[A-Za-z0-9.-]\<close> of \<open>safe_extra\<close>.\<close>

definition extra_char :: "char \<Rightarrow> bool" where
  "extra_char c = (is_upper c \<or> is_lower c \<or> is_digit c \<or> c = CHR ''.'' \<or> c = CHR ''-'')"

text \<open>
  \<open>re.sub('[^...]+', r, s)\<close>: scanning left to right, every maximal run of characters
  outside the class is replaced by the single character \<open>r\<close>. The flag records whether
  the scan is inside such a run (whose replacement has already been emitted).
\<close>

fun sub_runs :: "(char \<Rightarrow> bool) \<Rightarrow> char \<Rightarrow> bool \<Rightarrow> string \<Rightarrow> string" where
  "sub_runs ok r in_run [] = []"
| "sub_runs ok r in_run (c # cs) =
     (if ok c then c # sub_runs ok r False cs
      else if in_run then sub_runs ok r True cs
      else r # sub_runs ok r True cs)"

definition re_sub_runs :: "(char \<Rightarrow> bool) \<Rightarrow> char \<Rightarrow> string \<Rightarrow> string" where
  "re_sub_runs ok r s = sub_runs ok r False s"

text \<open>\<open>str.lower()\<close> on one character; only \<open>A\<close>..\<open>Z\<close> can occur cased after the substitution.\<close>

definition lower_char :: "char \<Rightarrow> char" where
  "lower_char c = (if is_upper c then char_of ((of_char c :: nat) + 32) else c)"

definition lower :: "string \<Rightarrow> string" where
  "lower s = map lower_char s"

definition safe_name :: "string \<Rightarrow> string" where
  "safe_name name = re_sub_runs name_char (CHR ''-'') name"

definition safe_extra :: "string \<Rightarrow> string" where
  "safe_extra extra = lower (re_sub_runs extra_char (CHR ''_'') extra)"

text \<open>\<open>name.replace('-', '_')\<close>.\<close>

definition to_filename :: "string \<Rightarrow> string" where
  "to_filename name = map (\<lambda>c. if c = CHR ''-'' then CHR ''_'' else c) name"

definition normalize_package :: "string \<Rightarrow> string" where
  "normalize_package name = to_filename (safe_name name)"

section \<open>Python values shared by the builders\<close>

text \<open>Exceptions are values: every \<open>raise\<close> of the source is an \<open>Inl\<close> branch.\<close>

datatype error =
    InvalidRequirement
  | KeyError string
  | TypeError
  | Exception string

definition quote :: char where
  "quote = CHR 0x27"

definition newline :: char where
  "newline = CHR 0x0A"

text \<open>
  A Python \<open>dict\<close> is an association list in iteration (insertion) order with distinct
  keys. \<open>d[k] = v\<close> is \<open>AList.update k v d\<close>: an existing key keeps its position and
  takes the new value, a new key is appended. \<open>d.update(other)\<close> stores the items of
  \<open>other\<close> one after the other.
\<close>

definition dict_update :: "('k \<times> 'v) list \<Rightarrow> ('k \<times> 'v) list \<Rightarrow> ('k \<times> 'v) list" where
  "dict_update d other = fold (\<lambda>(k, v). AList.update k v) other d"

text \<open>
  \<open>sorted(d.items())\<close>: the items are compared as tuples, key first; the keys of a
  dict are distinct, so the order is the order of the keys (strings compare
  lexicographically, character by character).
\<close>

definition sorted_items :: "(string \<times> 'v) list \<Rightarrow> (string \<times> 'v) list" where
  "sorted_items d = sort_key fst d"

section \<open>Requirement expander (enscons/util.py)\<close>

text \<open>
  \<open>packaging.requirements.Requirement\<close> is a library class. Its objects are modelled by
  the fields its \<open>__str__\<close> renders; the marker is kept as its rendered text (the
  expander reads it through \<open>%s\<close> only and overwrites it with a string). The parser
  \<open>Requirement(dependency)\<close> is a parameter of the model: it returns the parsed
  requirement or raises \<open>InvalidRequirement\<close>.
\<close>

record requirement =
  req_name :: string
  req_extras :: "string list"
  req_specifier :: string
  req_url :: "string option"
  req_marker :: "string option"

type_synonym parser = "string \<Rightarrow> error + requirement"

definition join :: "string \<Rightarrow> string list \<Rightarrow> string" where
  "join sep xs = (case xs of [] \<Rightarrow> [] | y # ys \<Rightarrow> y @ concat (map (\<lambda>z. sep @ z) ys))"

text \<open>\<open>str(requirement)\<close>, as \<open>packaging\<close> renders it.\<close>

definition str_requirement :: "requirement \<Rightarrow> string" where
  "str_requirement r =
     req_name r
     @ (if req_extras r \<noteq> [] then ''['' @ join '','' (sort (req_extras r)) @ '']'' else [])
     @ req_specifier r
     @ (case req_url r of
          None \<Rightarrow> []
        | Some u \<Rightarrow> if u = [] then []
                    else '' @ '' @ u @ (if req_marker r \<noteq> None then '' '' else []))
     @ (case req_marker r of None \<Rightarrow> [] | Some m \<Rightarrow> ''; '' @ m)"

text \<open>\<open>extra.split(":", 1)\<close> for a string that contains a colon.\<close>

definition split_colon :: "string \<Rightarrow> string \<times> string" where
  "split_colon s =
     (takeWhile (\<lambda>c. c \<noteq> CHR '':'') s, drop 1 (dropWhile (\<lambda>c. c \<noteq> CHR '':'') s))"

text \<open>
  Lines 75 to 85 of \<open>generate_requirements\<close>: from the group key, the normalized extra
  and the condition that the requirements of the group receive.
\<close>

definition group_condition :: "string \<Rightarrow> string \<times> string" where
  "group_condition key =
     (let (extra0, condition0) =
            (if CHR '':'' \<in> set key then split_colon key else (key, []));
          extra = safe_extra extra0
      in if extra \<noteq> []
         then (extra,
               (if condition0 \<noteq> [] then ''('' @ condition0 @ '') and '' else [])
               @ ''extra == '' @ [quote] @ extra @ [quote])
         else (extra, condition0))"

text \<open>Lines 89 to 93: the condition of the group is merged into the marker.\<close>

definition add_condition :: "string \<Rightarrow> requirement \<Rightarrow> requirement" where
  "add_condition condition r =
     (if condition \<noteq> []
      then (case req_marker r of
              Some m \<Rightarrow> r\<lparr>req_marker := Some (''('' @ m @ '') and '' @ condition)\<rparr>
            | None \<Rightarrow> r\<lparr>req_marker := Some condition\<rparr>)
      else r)"

text \<open>
  The generator yields its records one by one and may raise in the middle: the result
  is the list of the records yielded, and the exception that ended the iteration if
  there was one.
\<close>

type_synonym records = "(string \<times> string) list \<times> error option"

definition requires_dist_record :: "string \<Rightarrow> requirement \<Rightarrow> string \<times> string" where
  "requires_dist_record condition new_req =
     (''Requires-Dist'', str_requirement (add_condition condition new_req))"

text \<open>The inner loop (lines 87 to 94) over the requirement strings of one group.\<close>

fun requires_dist :: "parser \<Rightarrow> string \<Rightarrow> string list \<Rightarrow> records" where
  "requires_dist parse condition [] = ([], None)"
| "requires_dist parse condition (dependency # rest) =
     (case parse dependency of
        Inl e \<Rightarrow> ([], Some e)
      | Inr new_req \<Rightarrow>
          (let (ys, e) = requires_dist parse condition rest
           in (requires_dist_record condition new_req # ys, e)))"

definition provides_extra :: "string \<Rightarrow> (string \<times> string) list" where
  "provides_extra extra = (if extra \<noteq> [] then [(''Provides-Extra'', extra)] else [])"

text \<open>The body of the outer loop (lines 75 to 94) for one item of the mapping.\<close>

definition group_records :: "parser \<Rightarrow> string \<times> string list \<Rightarrow> records" where
  "group_records parse item =
     (let (extra, condition) = group_condition (fst item);
          (ys, e) = requires_dist parse condition (snd item)
      in (provides_extra extra @ ys, e))"

text \<open>
  The outer loop (line 74) runs over \<open>extras_require.items()\<close>, the items of the
  mapping in its iteration order.
\<close>

fun generate_requirements :: "parser \<Rightarrow> (string \<times> string list) list \<Rightarrow> records" where
  "generate_requirements parse [] = ([], None)"
| "generate_requirements parse (item # rest) =
     (let (ys, e) = group_records parse item
      in case e of
           Some err \<Rightarrow> (ys, Some err)
         | None \<Rightarrow>
             (let (zs, e') = generate_requirements parse rest
              in (ys @ zs, e')))"

section \<open>Requirement and entry-point builders (enscons/__init__.py)\<close>

text \<open>
  The project metadata (\<open>env["PACKAGE_METADATA"]\<close>) is a dict parsed from TOML; the
  keys the builders below read are fields, \<open>None\<close> for an absent key. An entry-point
  group is a list of lines or a table.
\<close>

datatype items = ItemList "string list" | ItemTable "(string \<times> string) list"

record metadata =
  extras_require :: "(string \<times> string list) list option"
  optional_dependencies :: "(string \<times> string list) list option"
  install_requires :: "string list option"
  dependencies :: "string list option"
  entry_points :: "(string \<times> items) list option"
  scripts :: "items option"
  gui_scripts :: "items option"

text \<open>
  \<open>full_requires\<close>, built by the same statements in \<open>metadata_builder\<close> (lines 323 to
  330) and in \<open>requires_txt_builder\<close> (lines 161 to 168).
\<close>

definition full_requires :: "metadata \<Rightarrow> (string \<times> string list) list" where
  "full_requires md =
     (let fr = [];
          fr = dict_update fr (case extras_require md of None \<Rightarrow> [] | Some d \<Rightarrow> d);
          fr = dict_update fr (case optional_dependencies md of None \<Rightarrow> [] | Some d \<Rightarrow> d);
          fr = (case install_requires md of None \<Rightarrow> fr | Some ir \<Rightarrow> AList.update [] ir fr);
          fr = (case dependencies md of None \<Rightarrow> fr | Some ds \<Rightarrow> AList.update [] ds fr)
      in fr)"

text \<open>
  The requirement records of \<open>metadata_builder\<close> (lines 331 and 332): the records the
  expander yields, and the lines written to METADATA for them.
\<close>

definition metadata_requirements :: "parser \<Rightarrow> metadata \<Rightarrow> records" where
  "metadata_requirements parse md = generate_requirements parse (full_requires md)"



text \<open>The text that \<open>requires_txt_builder\<close> writes to requires.txt.\<close>

definition requires_section :: "string \<times> string list \<Rightarrow> string" where
  "requires_section gd =
     (if fst gd \<noteq> [] then [newline] @ ''['' @ fst gd @ '']'' @ [newline] else [])
     @ concat (map (\<lambda>dep. dep @ [newline]) (snd gd))"

definition requires_txt_builder :: "metadata \<Rightarrow> string" where
  "requires_txt_builder md = concat (map requires_section (sorted_items (full_requires md)))"

text \<open>The text that \<open>entry_points_builder\<close> writes to \<open>entry_points.txt\<close>.\<close>

definition entry_points_dict :: "metadata \<Rightarrow> (string \<times> items) list" where
  "entry_points_dict md =
     (let ep = [];
          ep = (case entry_points md of None \<Rightarrow> ep | Some d \<Rightarrow> dict_update ep d);
          ep = (case scripts md of None \<Rightarrow> ep | Some s \<Rightarrow> AList.update ''console_scripts'' s ep);
          ep = (case gui_scripts md of None \<Rightarrow> ep | Some s \<Rightarrow> AList.update ''gui_scripts'' s ep)
      in ep)"

definition items_lines :: "items \<Rightarrow> string" where
  "items_lines its =
     (case its of
        ItemList xs \<Rightarrow> concat (map (\<lambda>item. item @ [newline]) xs)
      | ItemTable kvs \<Rightarrow>
          concat (map (\<lambda>(key, value). key @ '' = '' @ value @ [newline]) (sorted_items kvs)))"

definition entry_points_section :: "string \<times> items \<Rightarrow> string" where
  "entry_points_section gi = ''['' @ fst gi @ '']'' @ [newline] @ items_lines (snd gi)"

definition entry_points_builder :: "metadata \<Rightarrow> string" where
  "entry_points_builder md =
     concat (map entry_points_section (sorted_items (entry_points_dict md)))"

text \<open>
  The requirement strings of the examples below are bare project names; the library
  parses such a string to a requirement with that name, no extras, no version
  specifier, no URL and no marker.
\<close>

definition name_only :: parser where
  "name_only s =
     Inr \<lparr>req_name = s, req_extras = [], req_specifier = [], req_url = None, req_marker = None\<rparr>"

section \<open>Tag resolver (enscons/__init__.py)\<close>

text \<open>\<open>str(n)\<close> for a Python integer: its decimal digits, with a sign when negative.\<close>

definition digit_char :: "nat \<Rightarrow> char" where
  "digit_char d = char_of (48 + d)"

function str_nat :: "nat \<Rightarrow> string" where
  "str_nat n = (if n < 10 then [digit_char n] else str_nat (n div 10) @ [digit_char (n mod 10)])"
  by pat_completeness auto
termination
  by (relation "measure id") auto

declare str_nat.simps [simp del]

definition str_int :: "int \<Rightarrow> string" where
  "str_int i = (if i < 0 then ''-'' @ str_nat (nat (- i)) else str_nat (nat i))"

text \<open>
  The value of \<open>env["LIMITED_API_TARGET"]\<close> is any Python object: here an integer or a
  string, or a tuple or a list of such.
\<close>

datatype atom = AInt int | AStr string

datatype pyval = PyAtom atom | PyTuple "atom list" | PyList "atom list"

text \<open>
  \<open>x != n\<close>, \<open>x < n\<close> and \<open>str(x)\<close> for an integer \<open>n\<close>: a string is never equal to
  an integer, and comparing it with \<open><\<close> raises \<open>TypeError\<close>.
\<close>

fun py_ne :: "atom \<Rightarrow> int \<Rightarrow> bool" where
  "py_ne (AInt i) n = (i \<noteq> n)"
| "py_ne (AStr s) n = True"

fun py_lt :: "atom \<Rightarrow> int \<Rightarrow> error + bool" where
  "py_lt (AInt i) n = Inr (i < n)"
| "py_lt (AStr s) n = Inl TypeError"

fun py_str :: "atom \<Rightarrow> string" where
  "py_str (AInt i) = str_int i"
| "py_str (AStr s) = s"

text \<open>
  The facts that \<open>get_tag\<close> and \<open>enscons_defaults\<close> take from the host through
  \<open>wheel.bdist_wheel\<close> and \<open>packaging.tags\<close>: the platform name for an archive root, the
  name and version of the interpreter, its ABI tag (\<open>None\<close> when it has none) and the
  most specific binary tag.
\<close>

record host =
  get_platform :: "string \<Rightarrow> string"
  interpreter_name :: string
  interpreter_version :: string
  get_abi_tag :: "string option"
  get_binary_tag :: string

text \<open>The keys of the SCons environment that the tag resolver reads and writes.\<close>

record env =
  ROOT_IS_PURELIB :: "bool option"
  WHEEL_TAG :: "string option"
  WHEEL_PATH :: "string option"
  LIMITED_API_TARGET :: "pyval option"
  PACKAGE_NAMEVER :: "string option"
  ENSCONS_DEFAULTS :: bool

definition endswith :: "string \<Rightarrow> string \<Rightarrow> bool" where
  "endswith s suffix =
     (length suffix \<le> length s \<and> drop (length s - length suffix) s = suffix)"

text \<open>Lines 438 to 447 of \<open>get_tag\<close>: the checks of the target and the interpreter tag.\<close>

definition limited_api_impl :: "pyval \<Rightarrow> error + string" where
  "limited_api_impl target =
     (case target of
        PyTuple [major, minor] \<Rightarrow>
          if py_ne major 3 then Inl (Exception ''cannot target abi below 3.2'')
          else (case py_lt minor 2 of
                  Inl e \<Rightarrow> Inl e
                | Inr below \<Rightarrow>
                    if below then Inl (Exception ''cannot target abi below 3.2'')
                    else Inr (''cp'' @ concat (map py_str [major, minor])))
      | _ \<Rightarrow> Inl (Exception ''target is not a 2-tuple''))"

text \<open>Lines 429 to 457: the tag of a platlib build.\<close>

definition platlib_tag :: "host \<Rightarrow> env \<Rightarrow> error + string" where
  "platlib_tag h e =
     (case WHEEL_PATH e of
        None \<Rightarrow> Inl (KeyError ''WHEEL_PATH'')
      | Some wheel_path \<Rightarrow>
          (let plat = get_platform h wheel_path
           in case LIMITED_API_TARGET e of
                Some target \<Rightarrow>
                  (case limited_api_impl target of
                     Inl err \<Rightarrow> Inl err
                   | Inr impl \<Rightarrow> Inr (join ''-'' [impl, ''abi3'', plat]))
              | None \<Rightarrow>
                  (let impl = interpreter_name h @ interpreter_version h;
                       abi_tag = lower (case get_abi_tag h of None \<Rightarrow> ''None'' | Some a \<Rightarrow> a)
                   in Inr (join ''-'' [impl, abi_tag, plat]))))"

text \<open>\<open>get_tag\<close> returns the tag and stores it in \<open>env["WHEEL_TAG"]\<close>.\<close>

definition get_tag :: "host \<Rightarrow> env \<Rightarrow> error + string \<times> env" where
  "get_tag h e =
     (case ROOT_IS_PURELIB e of
        None \<Rightarrow> Inl (KeyError ''ROOT_IS_PURELIB'')
      | Some purelib \<Rightarrow>
          (case (if \<not> purelib then platlib_tag h e else Inr ''py3-none-any'') of
             Inl err \<Rightarrow> Inl err
           | Inr tag \<Rightarrow> Inr (tag, e\<lparr>WHEEL_TAG := Some tag\<rparr>)))"

text \<open>\<open>os.path.split\<close> and \<open>os.path.join\<close> (POSIX) on two components.\<close>

definition rstrip :: "char \<Rightarrow> string \<Rightarrow> string" where
  "rstrip c s = rev (dropWhile (\<lambda>x. x = c) (rev s))"

definition path_split :: "string \<Rightarrow> string \<times> string" where
  "path_split p =
     (let tail = rev (takeWhile (\<lambda>c. c \<noteq> CHR ''/'') (rev p));
          head = take (length p - length tail) p
      in (if head \<noteq> [] \<and> \<not> list_all (\<lambda>c. c = CHR ''/'') head
          then rstrip (CHR ''/'') head else head, tail))"

definition path_join :: "string \<Rightarrow> string \<Rightarrow> string" where
  "path_join a b =
     (if b \<noteq> [] \<and> hd b = CHR ''/'' then b
      else if a = [] \<or> last a = CHR ''/'' then a @ b
      else a @ ''/'' @ b)"

text \<open>
  \<open>correct_wheel_tags\<close>: the path the wheel \<open>source[0]\<close> is renamed to, and the
  environment after \<open>get_tag\<close>.
\<close>

definition correct_wheel_tags :: "host \<Rightarrow> env \<Rightarrow> string \<Rightarrow> error + string \<times> env" where
  "correct_wheel_tags h e file =
     (let (dir, name) = path_split file
      in case get_tag h e of
           Inl err \<Rightarrow> Inl err
         | Inr (tag, e') \<Rightarrow>
             (case PACKAGE_NAMEVER e' of
                None \<Rightarrow> Inl (KeyError ''PACKAGE_NAMEVER'')
              | Some namever \<Rightarrow>
                  (let file_name = join ''-'' [namever, tag] @ ''.whl'';
                       to_file = path_join dir file_name
                   in Inr (to_file, e'))))"

text \<open>
  Lines 710 to 723 of \<open>enscons_defaults\<close>: the once-only guard and the defaults of
  \<open>ROOT_IS_PURELIB\<close> and \<open>WHEEL_TAG\<close>. \<open>ROOT_IS_PURELIB\<close> is defaulted first, from
  \<open>env["WHEEL_TAG"]\<close>, which raises \<open>KeyError\<close> when that key is absent too.
\<close>

definition enscons_defaults_purelib :: "host \<Rightarrow> env \<Rightarrow> error + env" where
  "enscons_defaults_purelib h e =
     (if ENSCONS_DEFAULTS e then Inr e
      else
        (let e1 = e\<lparr>ENSCONS_DEFAULTS := True\<rparr>
         in case (case ROOT_IS_PURELIB e1 of
                    Some b \<Rightarrow> Inr e1
                  | None \<Rightarrow>
                      (case WHEEL_TAG e1 of
                         None \<Rightarrow> Inl (KeyError ''WHEEL_TAG'')
                       | Some t \<Rightarrow> Inr (e1\<lparr>ROOT_IS_PURELIB := Some (endswith t ''none-any'')\<rparr>)))
            of
              Inl err \<Rightarrow> Inl err
            | Inr e2 \<Rightarrow>
                Inr (case WHEEL_TAG e2 of
                       Some t \<Rightarrow> e2
                     | None \<Rightarrow> e2\<lparr>WHEEL_TAG := Some (get_binary_tag h)\<rparr>)))"

text \<open>
  The host and the environment of the examples below: CPython 3.11 on
  \<open>linux_x86_64\<close>, and the environment of the package \<open>sample\<close> 0.1 built as a
  platlib wheel for the limited API of Python 3.8, after \<open>enscons_defaults\<close>.
\<close>

definition linux_host :: host where
  "linux_host =
     \<lparr>get_platform = (\<lambda>archive_root. ''linux_x86_64''), interpreter_name = ''cp'',
      interpreter_version = ''311'', get_abi_tag = Some ''cp311'',
      get_binary_tag = ''cp311-cp311-linux_x86_64''\<rparr>"

definition sample_env :: env where
  "sample_env =
     \<lparr>ROOT_IS_PURELIB = Some False, WHEEL_TAG = Some ''cp311-cp311-linux_x86_64'',
      WHEEL_PATH = Some ''build/wheel'',
      LIMITED_API_TARGET = Some (PyTuple [AInt 3, AInt 8]),
      PACKAGE_NAMEVER = Some ''sample-0.1'', ENSCONS_DEFAULTS = True\<rparr>"

section \<open>Manifest of a wheel (enscons/__init__.py)\<close>















section \<open>Properties of the identifier normalizer\<close>

lemma sub_runs_twice:
  assumes "\<not> ok r"
  shows "sub_runs ok r False (sub_runs ok r b xs) = sub_runs ok r b xs
       \<and> sub_runs ok r True (sub_runs ok r True xs) = sub_runs ok r True xs"
  using assms by (induction xs arbitrary: b) auto

lemma re_sub_runs_idem:
  "\<not> ok r \<Longrightarrow> re_sub_runs ok r (re_sub_runs ok r s) = re_sub_runs ok r s"
  by (simp add: re_sub_runs_def sub_runs_twice)

lemma lower_char_not_upper: "\<not> is_upper (lower_char c)"
proof (cases "is_upper c")
  case True
  then have "(of_char c :: nat) + 32 < 256" by (simp add: is_upper_def Let_def)
  then have "(of_char (char_of ((of_char c :: nat) + 32)) :: nat) = of_char c + 32"
    by (simp add: of_char_of)
  with True show ?thesis by (simp add: lower_char_def is_upper_def Let_def)
next
  case False
  then show ?thesis by (simp add: lower_char_def)
qed

lemma lower_char_idem: "lower_char (lower_char c) = lower_char c"
  using lower_char_not_upper [of c] by (simp add: lower_char_def [of "lower_char c"])

lemma lower_idem: "lower (lower s) = lower s"
  by (simp add: lower_def lower_char_idem)

lemma extra_char_lower_char: "extra_char (lower_char c) = extra_char c"
proof (cases "is_upper c")
  case True
  then have lt: "(of_char c :: nat) + 32 < 256" by (simp add: is_upper_def Let_def)
  have n: "(of_char (lower_char c) :: nat) = of_char c + 32"
    using True lt by (simp add: lower_char_def of_char_of)
  have "is_lower (lower_char c)"
    using True by (simp add: is_lower_def is_upper_def Let_def n)
  with True show ?thesis by (simp add: extra_char_def)
next
  case False
  then show ?thesis by (simp add: lower_char_def)
qed

lemma sub_runs_map:
  assumes "\<And>c. ok (f c) = ok c" and "f r = r"
  shows "sub_runs ok r b (map f xs) = map f (sub_runs ok r b xs)"
  using assms by (induction xs arbitrary: b) auto

lemma lower_char_underscore: "lower_char (CHR ''_'') = CHR ''_''"
  by (simp add: lower_char_def is_upper_def)

lemma re_sub_runs_lower:
  "re_sub_runs extra_char (CHR ''_'') (lower s) = lower (re_sub_runs extra_char (CHR ''_'') s)"
  unfolding re_sub_runs_def lower_def
  by (rule sub_runs_map) (simp_all add: extra_char_lower_char lower_char_underscore)

lemma name_char_dash: "\<not> name_char (CHR ''-'')"
  by (simp add: name_char_def is_upper_def is_lower_def is_digit_def)

lemma extra_char_underscore: "\<not> extra_char (CHR ''_'')"
  by (simp add: extra_char_def is_upper_def is_lower_def is_digit_def)

lemma safe_name_idem: "safe_name (safe_name s) = safe_name s"
  by (simp add: safe_name_def re_sub_runs_idem name_char_dash)

lemma safe_extra_idem: "safe_extra (safe_extra s) = safe_extra s"
  by (simp add: safe_extra_def re_sub_runs_lower lower_idem re_sub_runs_idem
      extra_char_underscore)

lemma to_filename_idem: "to_filename (to_filename s) = to_filename s"
  by (simp add: to_filename_def)

text \<open>
  Claim C8. \<open>safe_name\<close>, \<open>to_filename\<close> and \<open>safe_extra\<close> are idempotent: for every
  input string, applying the function twice gives the same string as applying it once.
  Each is a total function of its argument alone (every input has a result, and the
  result depends on nothing else).
\<close>

theorem normalizers_idempotent:
  "safe_name (safe_name s) = safe_name s
   \<and> to_filename (to_filename s) = to_filename s
   \<and> safe_extra (safe_extra s) = safe_extra s"
  by (simp only: safe_name_idem to_filename_idem safe_extra_idem)

section \<open>Properties of the requirement expander\<close>

lemma requires_dist_ok:
  "requires_dist parse c deps = (ys, None) \<Longrightarrow>
   \<exists>rs. map parse deps = map Inr rs \<and> ys = map (requires_dist_record c) rs"
proof (induction deps arbitrary: ys)
  case Nil
  then show ?case by simp
next
  case (Cons d deps)
  from Cons.prems obtain r where r: "parse d = Inr r"
    by (cases "parse d") auto
  obtain zs e where zs: "requires_dist parse c deps = (zs, e)"
    by (cases "requires_dist parse c deps")
  with Cons.prems r have e: "e = None" and ys: "ys = requires_dist_record c r # zs"
    by auto
  from Cons.IH [of zs] zs e obtain rs where
    "map parse deps = map Inr rs" "zs = map (requires_dist_record c) rs" by auto
  with r ys have "map parse (d # deps) = map Inr (r # rs) \<and> ys = map (requires_dist_record c) (r # rs)"
    by simp
  then show ?case by blast
qed

lemma generate_requirements_ok:
  "generate_requirements parse groups = (recs, None) \<Longrightarrow>
   recs = concat (map (\<lambda>g. fst (group_records parse g)) groups)
   \<and> (\<forall>g \<in> set groups. snd (group_records parse g) = None)"
proof (induction groups arbitrary: recs)
  case Nil
  then show ?case by simp
next
  case (Cons g groups)
  obtain ys e where g: "group_records parse g = (ys, e)"
    by (cases "group_records parse g")
  obtain zs e' where r: "generate_requirements parse groups = (zs, e')"
    by (cases "generate_requirements parse groups")
  from Cons.prems g r have "e = None" "e' = None" "recs = ys @ zs"
    by (auto split: option.splits)
  with Cons.IH [of zs] g r show ?case by simp
qed

lemma group_records_ok:
  assumes "snd (group_records parse (key, deps)) = None"
  shows "\<exists>rs. map parse deps = map Inr rs
     \<and> fst (group_records parse (key, deps)) =
         provides_extra (fst (group_condition key))
         @ map (requires_dist_record (snd (group_condition key))) rs"
proof -
  obtain extra c where gc: "group_condition key = (extra, c)"
    by (cases "group_condition key")
  obtain ys e where rd: "requires_dist parse c deps = (ys, e)"
    by (cases "requires_dist parse c deps")
  from assms gc rd have "e = None" by (simp add: group_records_def)
  with rd requires_dist_ok [of parse c deps ys] obtain rs where
    "map parse deps = map Inr rs" "ys = map (requires_dist_record c) rs" by auto
  with gc rd show ?thesis by (auto simp: group_records_def)
qed

lemma provides_extra_filter:
  "filter (\<lambda>r. fst r = ''Provides-Extra'') (provides_extra e) = provides_extra e"
  by (simp add: provides_extra_def)

lemma requires_dist_record_filter:
  "filter (\<lambda>r. fst r = ''Provides-Extra'') (map (requires_dist_record c) rs) = []"
  by (induction rs) (simp_all add: requires_dist_record_def)

lemma group_provides:
  assumes "snd (group_records parse g) = None"
  shows "filter (\<lambda>r. fst r = ''Provides-Extra'') (fst (group_records parse g))
         = provides_extra (fst (group_condition (fst g)))"
proof -
  obtain key deps where g: "g = (key, deps)" by (cases g)
  from group_records_ok [of parse key deps] assms g obtain rs where
    "fst (group_records parse g) = provides_extra (fst (group_condition key))
         @ map (requires_dist_record (snd (group_condition key))) rs" by auto
  then show ?thesis
    by (simp add: g provides_extra_filter requires_dist_record_filter)
qed

lemma concat_provides:
  "concat (map (\<lambda>g. provides_extra (fst (group_condition (fst g)))) groups)
   = map (Pair ''Provides-Extra'')
       (filter (\<lambda>e. e \<noteq> []) (map (\<lambda>g. fst (group_condition (fst g))) groups))"
  by (induction groups) (simp_all add: provides_extra_def)

lemma group_condition_extra:
  assumes "fst (group_condition key) \<noteq> []"
  shows "\<exists>pre. snd (group_condition key)
     = pre @ ''extra == '' @ [quote] @ fst (group_condition key) @ [quote]"
  using assms
  by (auto simp: group_condition_def Let_def split: prod.splits if_splits)

lemma add_condition_marker:
  assumes "c \<noteq> []"
  shows "\<exists>pre. req_marker (add_condition c r) = Some (pre @ c)"
  using assms by (cases "req_marker r") (auto simp: add_condition_def)

lemma str_requirement_marker:
  assumes "req_marker r = Some m"
  shows "\<exists>pre. str_requirement r = pre @ ''; '' @ m"
  using assms by (simp add: str_requirement_def)

lemma requires_dist_record_extra:
  assumes "fst (group_condition key) \<noteq> []"
  shows "\<exists>pre. snd (requires_dist_record (snd (group_condition key)) r)
     = pre @ ''extra == '' @ [quote] @ fst (group_condition key) @ [quote]"
proof -
  from group_condition_extra [OF assms] obtain p1 where
    c: "snd (group_condition key) = p1 @ ''extra == '' @ [quote] @ fst (group_condition key) @ [quote]"
    by blast
  then have ne: "snd (group_condition key) \<noteq> []" by simp
  from add_condition_marker [OF ne, of r] obtain p2 where
    m: "req_marker (add_condition (snd (group_condition key)) r) = Some (p2 @ snd (group_condition key))"
    by blast
  from str_requirement_marker [OF m] obtain p3 where
    "str_requirement (add_condition (snd (group_condition key)) r)
       = p3 @ ''; '' @ p2 @ snd (group_condition key)" by blast
  then have "snd (requires_dist_record (snd (group_condition key)) r)
     = (p3 @ ''; '' @ p2 @ p1) @ ''extra == '' @ [quote] @ fst (group_condition key) @ [quote]"
    using c by (simp add: requires_dist_record_def)
  then show ?thesis by blast
qed

lemma split_colon_append:
  assumes "CHR '':'' \<notin> set e0"
  shows "split_colon (e0 @ CHR '':'' # c0) = (e0, c0)"
proof -
  have a: "takeWhile (\<lambda>c. c \<noteq> CHR '':'') e0 = e0" "dropWhile (\<lambda>c. c \<noteq> CHR '':'') e0 = []"
    using assms by (auto simp: takeWhile_eq_all_conv)
  show ?thesis
    by (simp add: split_colon_def takeWhile_tail dropWhile_append3 a)
qed

lemma group_condition_colon:
  assumes "CHR '':'' \<notin> set e0"
  shows "group_condition (e0 @ CHR '':'' # c0) =
     (if safe_extra e0 \<noteq> []
      then (safe_extra e0,
            (if c0 \<noteq> [] then ''('' @ c0 @ '') and '' else [])
            @ ''extra == '' @ [quote] @ safe_extra e0 @ [quote])
      else ([], c0))"
  using split_colon_append [OF assms, of c0]
  by (simp add: group_condition_def Let_def)

lemma group_condition_plain:
  assumes "CHR '':'' \<notin> set e0"
  shows "group_condition e0 =
     (if safe_extra e0 \<noteq> []
      then (safe_extra e0, ''extra == '' @ [quote] @ safe_extra e0 @ [quote])
      else ([], []))"
  using assms by (simp add: group_condition_def Let_def)

lemma single_requirement:
  assumes "parse d = Inr r"
  shows "generate_requirements parse [(key, [d])] =
     (provides_extra (fst (group_condition key))
      @ [(''Requires-Dist'', str_requirement (add_condition (snd (group_condition key)) r))], None)"
  using assms
  by (simp add: group_records_def requires_dist_record_def split: prod.splits)

lemma add_condition_nonempty:
  "c \<noteq> [] \<Longrightarrow> add_condition c r =
     r\<lparr>req_marker := Some (case req_marker r of None \<Rightarrow> c | Some m \<Rightarrow> ''('' @ m @ '') and '' @ c)\<rparr>"
  by (cases "req_marker r") (simp_all add: add_condition_def)

lemma group_records_with_extra:
  assumes "snd (group_records parse (key, deps)) = None"
    and "group_condition key = (extra, condition)" and "extra \<noteq> []" and "condition \<noteq> []"
  shows "\<exists>rs. map parse deps = map Inr rs
     \<and> fst (group_records parse (key, deps)) =
         [(''Provides-Extra'', extra)]
         @ map (\<lambda>r. (''Requires-Dist'', str_requirement (r\<lparr>req_marker := Some
                  (case req_marker r of
                     None \<Rightarrow> condition
                   | Some m \<Rightarrow> ''('' @ m @ '') and '' @ condition)\<rparr>))) rs"
proof -
  from group_records_ok [OF assms(1)] obtain rs where
    p: "map parse deps = map Inr rs" and
    f: "fst (group_records parse (key, deps)) =
         provides_extra (fst (group_condition key))
         @ map (requires_dist_record (snd (group_condition key))) rs" by blast
  have "requires_dist_record condition r = (''Requires-Dist'', str_requirement (r\<lparr>req_marker := Some
                  (case req_marker r of
                     None \<Rightarrow> condition
                   | Some m \<Rightarrow> ''('' @ m @ '') and '' @ condition)\<rparr>))" for r
    by (simp add: requires_dist_record_def add_condition_nonempty [OF assms(4)])
  with f assms(2,3) have "fst (group_records parse (key, deps)) =
         [(''Provides-Extra'', extra)]
         @ map (\<lambda>r. (''Requires-Dist'', str_requirement (r\<lparr>req_marker := Some
                  (case req_marker r of
                     None \<Rightarrow> condition
                   | Some m \<Rightarrow> ''('' @ m @ '') and '' @ condition)\<rparr>))) rs"
    by (simp add: provides_extra_def)
  with p show ?thesis by blast
qed

section \<open>Properties of the requirement and entry-point builders\<close>

lemma dict_update_Cons:
  "dict_update d ((k, v) # other) = dict_update (AList.update k v d) other"
  by (simp add: dict_update_def)

lemma dict_update_Nil: "dict_update d [] = d"
  by (simp add: dict_update_def)

lemma distinct_dict_update:
  "distinct (map fst d) \<Longrightarrow> distinct (map fst (dict_update d other))"
proof (induction other arbitrary: d)
  case Nil
  then show ?case by (simp add: dict_update_Nil)
next
  case (Cons p other)
  obtain k v where p: "p = (k, v)" by (cases p)
  from Cons.prems have "distinct (map fst (AList.update k v d))"
    by (rule distinct_update)
  from Cons.IH [OF this] show ?case by (simp add: p dict_update_Cons)
qed

lemma map_of_dict_update:
  "map_of (dict_update d other) = map_of d ++ map_of (rev other)"
proof (induction other arbitrary: d)
  case Nil
  then show ?case by (simp add: dict_update_Nil)
next
  case (Cons p other)
  obtain k v where p: "p = (k, v)" by (cases p)
  have "map_of (dict_update d (p # other)) = map_of (AList.update k v d) ++ map_of (rev other)"
    by (simp add: p dict_update_Cons Cons.IH)
  also have "\<dots> = map_of d ++ map_of (rev (p # other))"
    by (simp add: p update_conv' map_of_append map_add_upd_left [symmetric] del: map_add_upd_left)
  finally show ?case .
qed

lemma dict_update_distinct_in:
  assumes "distinct (map fst other)" and "(g, ds) \<in> set other"
  shows "map_of (dict_update d other) g = Some ds"
proof -
  from assms have "map_of (rev other) g = Some ds"
    by (intro map_of_is_SomeI) (simp_all add: rev_map [symmetric])
  then show ?thesis by (simp add: map_of_dict_update map_add_def)
qed

lemma dict_update_empty:
  assumes "distinct (map fst (acc @ d))"
  shows "dict_update acc d = acc @ d"
  using assms
proof (induction d arbitrary: acc)
  case Nil
  then show ?case by (simp add: dict_update_Nil)
next
  case (Cons p d)
  obtain k v where p: "p = (k, v)" by (cases p)
  from Cons.prems p have "k \<notin> fst ` set acc" by auto
  then have u: "AList.update k v acc = acc @ [(k, v)]"
    by (induction acc) auto
  from Cons.prems p have "distinct (map fst ((acc @ [(k, v)]) @ d))" by simp
  from Cons.IH [OF this] show ?case by (simp add: p dict_update_Cons u)
qed

lemma insort_key_least:
  assumes "\<forall>y \<in> set ys. f x \<le> f y"
  shows "insort_key f x ys = x # ys"
  using assms by (cases ys) simp_all

lemma sorted_items_base_first:
  assumes "([], v) \<in> set xs" and "distinct (map fst xs)"
  shows "sorted_items xs = ([], v) # sorted_items (filter (\<lambda>p. fst p \<noteq> []) xs)"
  using assms
proof (induction xs)
  case Nil
  then show ?case by simp
next
  case (Cons p ps)
  show ?case
  proof (cases "p = ([], v)")
    case True
    with Cons.prems have no: "\<forall>q \<in> set ps. fst q \<noteq> []" by force
    then have f: "filter (\<lambda>p. fst p \<noteq> []) ps = ps" by (simp add: filter_id_conv)
    have "insort_key fst ([], v) (sort_key fst ps) = ([], v) # sort_key fst ps"
      by (rule insort_key_least) simp
    with True f show ?thesis by (simp add: sorted_items_def)
  next
    case False
    with Cons.prems have in_ps: "([], v) \<in> set ps" and d: "distinct (map fst ps)" by auto
    from Cons.prems in_ps have ne: "fst p \<noteq> []" by force
    from Cons.IH [OF in_ps d] have ih:
      "sort_key fst ps = ([], v) # sort_key fst (filter (\<lambda>p. fst p \<noteq> []) ps)"
      by (simp add: sorted_items_def)
    from ne have "\<not> fst p \<le> []" by simp
    then show ?thesis using ne by (simp add: sorted_items_def ih)
  qed
qed

lemma distinct_full_requires: "distinct (map fst (full_requires md))"
proof -
  have "distinct (map fst (dict_update (dict_update [] a) b))" for a b :: "(string \<times> string list) list"
    by (intro distinct_dict_update) simp
  then show ?thesis
    by (auto simp: full_requires_def Let_def intro!: distinct_update split: option.splits)
qed

lemma full_requires_base:
  assumes "dependencies md = Some deps"
  shows "map_of (full_requires md) [] = Some deps"
  using assms by (simp add: full_requires_def Let_def update_conv' split: option.splits)

lemma full_requires_install_requires:
  assumes "dependencies md = Some deps"
  shows "full_requires (md\<lparr>install_requires := ir\<rparr>) = full_requires md"
  using assms by (simp add: full_requires_def Let_def split: option.splits)

lemma full_requires_optional:
  assumes "optional_dependencies md = Some opt" and "distinct (map fst opt)"
    and "(g, ds) \<in> set opt" and "g \<noteq> []"
  shows "map_of (full_requires md) g = Some ds"
  using assms dict_update_distinct_in [OF assms(2,3)]
  by (simp add: full_requires_def Let_def update_conv' split: option.splits)

lemma group_records_base:
  assumes "snd (group_records parse ([], deps)) = None"
  shows "\<exists>rs. map parse deps = map Inr rs
     \<and> fst (group_records parse ([], deps))
        = map (\<lambda>r. (''Requires-Dist'', str_requirement r)) rs"
proof -
  have gc: "group_condition [] = ([], [])"
    by (simp add: group_condition_def safe_extra_def lower_def re_sub_runs_def)
  from group_records_ok [OF assms] obtain rs where
    "map parse deps = map Inr rs"
    "fst (group_records parse ([], deps)) = provides_extra (fst (group_condition []))
         @ map (requires_dist_record (snd (group_condition []))) rs" by blast
  then have "map parse deps = map Inr rs
     \<and> fst (group_records parse ([], deps))
        = map (\<lambda>r. (''Requires-Dist'', str_requirement r)) rs"
    by (simp add: gc provides_extra_def requires_dist_record_def add_condition_def)
  then show ?thesis by blast
qed

lemma metadata_base_records:
  assumes "dependencies md = Some deps" and "metadata_requirements parse md = (recs, None)"
  shows "\<exists>rs pre post. map parse deps = map Inr rs
     \<and> recs = pre @ map (\<lambda>r. (''Requires-Dist'', str_requirement r)) rs @ post"
proof -
  from full_requires_base [OF assms(1)] have "([], deps) \<in> set (full_requires md)"
    by (rule map_of_SomeD)
  then obtain xs ys where fr: "full_requires md = xs @ ([], deps) # ys"
    by (auto dest: split_list)
  from assms(2) have g: "generate_requirements parse (full_requires md) = (recs, None)"
    by (simp add: metadata_requirements_def)
  from generate_requirements_ok [OF g] fr have
    recs: "recs = concat (map (\<lambda>g. fst (group_records parse g)) xs)
        @ fst (group_records parse ([], deps))
        @ concat (map (\<lambda>g. fst (group_records parse g)) ys)"
    and ok: "snd (group_records parse ([], deps)) = None" by auto
  from group_records_base [OF ok] obtain rs where
    "map parse deps = map Inr rs"
    "fst (group_records parse ([], deps)) = map (\<lambda>r. (''Requires-Dist'', str_requirement r)) rs"
    by blast
  with recs show ?thesis by blast
qed

lemma requires_txt_base_first:
  assumes "dependencies md = Some deps"
  shows "requires_txt_builder md
     = concat (map (\<lambda>dep. dep @ [newline]) deps)
       @ concat (map requires_section
           (sorted_items (filter (\<lambda>p. fst p \<noteq> []) (full_requires md))))"
proof -
  from full_requires_base [OF assms] have "([], deps) \<in> set (full_requires md)"
    by (rule map_of_SomeD)
  from sorted_items_base_first [OF this distinct_full_requires]
  show ?thesis by (simp add: requires_txt_builder_def requires_section_def)
qed

lemma update_update_mem:
  assumes "k \<in> fst ` set d" and "k \<noteq> k'"
  shows "AList.update k s (AList.update k' c (AList.update k x d))
     = AList.update k s (AList.update k' c d)"
  using assms by (induction d) auto

lemma entry_points_dict_distinct:
  assumes "entry_points md = Some d" and "distinct (map fst d)"
  shows "distinct (map fst (entry_points_dict md))"
  using assms dict_update_empty [of "[]" d]
  by (auto simp: entry_points_dict_def Let_def intro!: distinct_update split: option.splits)

lemma entry_points_section_present:
  assumes "map_of (entry_points_dict md) k = Some s"
  shows "\<exists>pre post. entry_points_builder md
     = pre @ ''['' @ k @ '']'' @ [newline] @ items_lines s @ post"
proof -
  from assms have "(k, s) \<in> set (sorted_items (entry_points_dict md))"
    by (auto simp: sorted_items_def dest: map_of_SomeD)
  then obtain xs ys where "sorted_items (entry_points_dict md) = xs @ (k, s) # ys"
    by (auto dest: split_list)
  then have "entry_points_builder md
     = concat (map entry_points_section xs) @ ''['' @ k @ '']'' @ [newline] @ items_lines s
       @ concat (map entry_points_section ys)"
    by (simp add: entry_points_builder_def entry_points_section_def)
  then show ?thesis by blast
qed



section \<open>Properties of the tag resolver\<close>

lemma endswith_iff: "endswith s suf \<longleftrightarrow> (\<exists>pre. s = pre @ suf)"
proof
  assume "endswith s suf"
  then have "s = take (length s - length suf) s @ suf"
    by (metis append_take_drop_id endswith_def)
  then show "\<exists>pre. s = pre @ suf" by blast
next
  assume "\<exists>pre. s = pre @ suf"
  then show "endswith s suf" by (auto simp: endswith_def)
qed

lemma last_component:
  assumes "CHR ''-'' \<notin> set p" and "CHR ''-'' \<notin> set q"
    and "a @ CHR ''-'' # p = b @ CHR ''-'' # q"
  shows "p = q"
proof -
  have "takeWhile (\<lambda>c. c \<noteq> CHR ''-'') (rev (x @ CHR ''-'' # y)) = rev y"
    if "CHR ''-'' \<notin> set y" for x y
    using that by (auto simp: takeWhile_tail takeWhile_eq_all_conv)
  from this [OF assms(1), of a] this [OF assms(2), of b] assms(3)
  show ?thesis by simp
qed

lemma platform_tag_not_none_any:
  assumes "CHR ''-'' \<notin> set plat" and "plat \<noteq> ''any''"
  shows "\<not> endswith (join ''-'' [impl, abi, plat]) ''none-any''"
proof
  assume "endswith (join ''-'' [impl, abi, plat]) ''none-any''"
  then obtain pre where "join ''-'' [impl, abi, plat] = pre @ ''none-any''"
    by (auto simp: endswith_iff)
  then have "(impl @ ''-'' @ abi) @ CHR ''-'' # plat = (pre @ ''none'') @ CHR ''-'' # ''any''"
    by (simp add: join_def)
  from last_component [OF assms(1) _ this] have "plat = ''any''" by simp
  with assms(2) show False by simp
qed

lemma platlib_tag_form:
  assumes "platlib_tag h e = Inr tag"
  shows "\<exists>impl abi wp. WHEEL_PATH e = Some wp \<and> tag = join ''-'' [impl, abi, get_platform h wp]"
  using assms
  by (auto simp: platlib_tag_def Let_def split: option.splits sum.splits)

lemma limited_api_impl_int_pair:
  "limited_api_impl (PyTuple [AInt major, AInt minor]) =
     (if major \<noteq> 3 \<or> minor < 2 then Inl (Exception ''cannot target abi below 3.2'')
      else Inr (''cp'' @ str_int major @ str_int minor))"
  by (simp add: limited_api_impl_def)

lemma limited_api_impl_not_pair:
  assumes "\<forall>a b. target \<noteq> PyTuple [a, b]"
  shows "limited_api_impl target = Inl (Exception ''target is not a 2-tuple'')"
  using assms
  by (auto simp: limited_api_impl_def split: pyval.splits list.splits)

lemma limited_api_impl_ok:
  "(\<exists>impl. limited_api_impl target = Inr impl)
     \<longleftrightarrow> (\<exists>minor. target = PyTuple [AInt 3, AInt minor] \<and> 2 \<le> minor)"
proof
  assume "\<exists>impl. limited_api_impl target = Inr impl"
  then obtain impl where i: "limited_api_impl target = Inr impl" by blast
  then obtain major minor where t: "target = PyTuple [major, minor]"
    using limited_api_impl_not_pair [of target] by fastforce
  from i t obtain mj mn where "major = AInt mj" "minor = AInt mn"
    by (cases major; cases minor) (auto simp: limited_api_impl_def split: if_splits)
  with i t show "\<exists>minor. target = PyTuple [AInt 3, AInt minor] \<and> 2 \<le> minor"
    by (auto simp: limited_api_impl_int_pair split: if_splits)
next
  assume "\<exists>minor. target = PyTuple [AInt 3, AInt minor] \<and> 2 \<le> minor"
  then show "\<exists>impl. limited_api_impl target = Inr impl"
    by (auto simp: limited_api_impl_int_pair)
qed

lemma get_tag_limited:
  assumes "ROOT_IS_PURELIB e = Some False" and "WHEEL_PATH e = Some wp"
    and "LIMITED_API_TARGET e = Some target"
  shows "get_tag h e =
     (case limited_api_impl target of
        Inl err \<Rightarrow> Inl err
      | Inr impl \<Rightarrow>
          Inr (impl @ ''-abi3-'' @ get_platform h wp,
               e\<lparr>WHEEL_TAG := Some (impl @ ''-abi3-'' @ get_platform h wp)\<rparr>))"
  using assms
  by (simp add: get_tag_def platlib_tag_def join_def split: sum.splits)

lemma takeWhile_until:
  "\<forall>c \<in> set xs. c \<noteq> x \<Longrightarrow> takeWhile (\<lambda>c. c \<noteq> x) (xs @ x # ys) = xs"
  by (induction xs) auto

lemma path_split_basename:
  assumes "CHR ''/'' \<notin> set f"
  shows "snd (path_split (d @ CHR ''/'' # f)) = f" and "snd (path_split f) = f"
proof -
  have all: "\<forall>c \<in> set (rev f). c \<noteq> CHR ''/''" using assms by auto
  have "takeWhile (\<lambda>c. c \<noteq> CHR ''/'') (rev f @ CHR ''/'' # rev d) = rev f"
    using all by (rule takeWhile_until)
  then show "snd (path_split (d @ CHR ''/'' # f)) = f"
    by (simp add: path_split_def Let_def)
  have "takeWhile (\<lambda>c. c \<noteq> CHR ''/'') (rev f) = rev f"
    using all by (subst takeWhile_eq_all_conv) blast
  then show "snd (path_split f) = f"
    by (simp only: path_split_def Let_def snd_conv rev_rev_ident)
qed

lemma path_join_basename:
  assumes "CHR ''/'' \<notin> set f" and "f \<noteq> []"
  shows "snd (path_split (path_join d f)) = f"
proof -
  from assms have hd: "hd f \<noteq> CHR ''/''" by (cases f) auto
  show ?thesis
  proof (cases "d = []")
    case True
    with hd show ?thesis by (simp add: path_join_def path_split_basename(2) [OF assms(1)])
  next
    case False
    show ?thesis
    proof (cases "last d = CHR ''/''")
      case True
      with False have "d = butlast d @ [CHR ''/'']" by (metis append_butlast_last_id)
      then have "d @ f = butlast d @ CHR ''/'' # f"
        by (metis append_Cons append_Nil append_assoc)
      moreover from True hd False have "path_join d f = d @ f"
        by (simp add: path_join_def)
      ultimately show ?thesis
        by (simp only: path_split_basename(1) [OF assms(1)])
    next
      case l: False
      with False hd show ?thesis
        by (simp add: path_join_def path_split_basename(1) [OF assms(1)])
    qed
  qed
qed

section \<open>Properties of the manifest\<close>










section \<open>Claims about the requirement expander\<close>




text \<open>
  Claim C3, as stated (the \<open>Provides-Extra\<close> records are exactly the non-empty
  normalized names of the groups with at least one requirement, each once), fails: a
  group without requirements still gets its \<open>Provides-Extra\<close> record, and two keys that
  normalize to the same name (\<open>test\<close> and \<open>test:x\<close>) give the record twice.
\<close>

theorem provides_extra_counterexample:
  "fst (generate_requirements name_only [(''test'', [])]) = [(''Provides-Extra'', ''test'')]
   \<and> fst (generate_requirements name_only [(''test'', [''a'']), (''test:x'', [''b''])])
      = [(''Provides-Extra'', ''test''),
         (''Requires-Dist'', ''a; extra == '' @ [quote] @ ''test'' @ [quote]),
         (''Provides-Extra'', ''test''),
         (''Requires-Dist'', ''b; (x) and extra == '' @ [quote] @ ''test'' @ [quote])]"
  by code_simp

text \<open>
  Claim C3, amended. When the expander finishes without an exception, its records are
  the records of the groups, one group after the other in the order of the mapping; the
  \<open>Provides-Extra\<close> records are, in that order, one per group key whose normalized
  extra name is not empty (whatever the number of requirements of the group); and every
  \<open>Requires-Dist\<close> record of a group whose normalized extra name is not empty ends with
  the marker clause \<open>extra == '<that name>'\<close>.
\<close>

theorem provides_extra_per_group:
  assumes "generate_requirements parse groups = (recs, None)"
  shows "recs = concat (map (\<lambda>g. fst (group_records parse g)) groups)
    \<and> filter (\<lambda>r. fst r = ''Provides-Extra'') recs
        = map (Pair ''Provides-Extra'')
            (filter (\<lambda>e. e \<noteq> []) (map (\<lambda>g. fst (group_condition (fst g))) groups))
    \<and> (\<forall>g \<in> set groups. fst (group_condition (fst g)) \<noteq> [] \<longrightarrow>
          (\<forall>r \<in> set (fst (group_records parse g)). fst r = ''Requires-Dist'' \<longrightarrow>
             (\<exists>pre. snd r = pre @ ''extra == '' @ [quote] @ fst (group_condition (fst g)) @ [quote])))"
proof -
  from generate_requirements_ok [OF assms] have
    recs: "recs = concat (map (\<lambda>g. fst (group_records parse g)) groups)"
    and ok: "\<forall>g \<in> set groups. snd (group_records parse g) = None" by auto
  have "filter (\<lambda>r. fst r = ''Provides-Extra'') recs
      = concat (map (\<lambda>g. filter (\<lambda>r. fst r = ''Provides-Extra'') (fst (group_records parse g))) groups)"
    by (simp add: recs filter_concat comp_def)
  also have "\<dots> = concat (map (\<lambda>g. provides_extra (fst (group_condition (fst g)))) groups)"
    using ok by (intro arg_cong [where f = concat] map_cong refl group_provides) simp
  finally have pe: "filter (\<lambda>r. fst r = ''Provides-Extra'') recs
        = map (Pair ''Provides-Extra'')
            (filter (\<lambda>e. e \<noteq> []) (map (\<lambda>g. fst (group_condition (fst g))) groups))"
    by (simp only: concat_provides)
  have rd: "\<exists>pre. snd r = pre @ ''extra == '' @ [quote] @ fst (group_condition (fst g)) @ [quote]"
    if g: "g \<in> set groups" and ne: "fst (group_condition (fst g)) \<noteq> []"
      and r: "r \<in> set (fst (group_records parse g))" and k: "fst r = ''Requires-Dist''" for g r
  proof -
    obtain key deps where gk: "g = (key, deps)" by (cases g)
    from ok g gk have "snd (group_records parse (key, deps)) = None" by auto
    from group_records_ok [OF this] obtain rs where
      eq: "fst (group_records parse (key, deps)) = provides_extra (fst (group_condition key))
         @ map (requires_dist_record (snd (group_condition key))) rs" by blast
    from r k gk eq obtain q where "r = requires_dist_record (snd (group_condition key)) q"
      by (auto simp: provides_extra_def split: if_splits)
    with requires_dist_record_extra [of key q] ne gk show ?thesis by simp
  qed
  from recs pe rd show ?thesis by blast
qed

theorem provides_extra_per_group_witness:
  "generate_requirements name_only [(''test'', [''pytest'']), (''Test:x'', [])]
     = ([(''Provides-Extra'', ''test''),
         (''Requires-Dist'', ''pytest; extra == '' @ [quote] @ ''test'' @ [quote]),
         (''Provides-Extra'', ''test'')], None)
   \<and> filter (\<lambda>r. fst r = ''Provides-Extra'')
        [(''Provides-Extra'', ''test''),
         (''Requires-Dist'', ''pytest; extra == '' @ [quote] @ ''test'' @ [quote]),
         (''Provides-Extra'', ''test'')]
      = map (Pair ''Provides-Extra'') [''test'', ''test'']
   \<and> (\<exists>pre. ''pytest; extra == '' @ [quote] @ ''test'' @ [quote]
          = pre @ ''extra == '' @ [quote] @ ''test'' @ [quote])"
proof -
  let ?groups = "[(''test'', [''pytest'']), (''Test:x'', [])]"
  let ?recs = "[(''Provides-Extra'', ''test''),
         (''Requires-Dist'', ''pytest; extra == '' @ [quote] @ ''test'' @ [quote]),
         (''Provides-Extra'', ''test'')]"
  have h: "generate_requirements name_only ?groups = (?recs, None)"
    by code_simp
  have e: "filter (\<lambda>e. e \<noteq> []) (map (\<lambda>g. fst (group_condition (fst g))) ?groups)
      = [''test'', ''test'']"
    by code_simp
  have g: "fst (group_records name_only (''test'', [''pytest'']))
      = [(''Provides-Extra'', ''test''),
         (''Requires-Dist'', ''pytest; extra == '' @ [quote] @ ''test'' @ [quote])]"
    "fst (group_condition ''test'') = ''test''"
    by code_simp+
  note t = provides_extra_per_group [OF h]
  from t have 1: "filter (\<lambda>r. fst r = ''Provides-Extra'') ?recs
      = map (Pair ''Provides-Extra'') [''test'', ''test'']"
    unfolding e by blast
  from t have "\<forall>r \<in> set (fst (group_records name_only (''test'', [''pytest'']))).
      fst r = ''Requires-Dist'' \<longrightarrow>
        (\<exists>pre. snd r = pre @ ''extra == '' @ [quote] @ fst (group_condition ''test'') @ [quote])"
    using g(2) by auto
  then have 2: "\<exists>pre. ''pytest; extra == '' @ [quote] @ ''test'' @ [quote]
          = pre @ ''extra == '' @ [quote] @ ''test'' @ [quote]"
    unfolding g by simp
  from h 1 2 show ?thesis by blast
qed

text \<open>
  Claim C5. Take any mapping on which the expander finishes, and any group of it whose
  normalized extra is not empty; \<open>e0\<close> is the part of its key before the first colon
  (the whole key when it has no colon) and \<open>c0\<close> the literal condition after it. The
  combined condition of the group is \<open>(<c0>) and extra == '<extra>'\<close> when the literal
  condition is not empty, and \<open>extra == '<extra>'\<close> otherwise. The records of the
  mapping contain the \<open>Provides-Extra\<close> record of the group followed by one
  \<open>Requires-Dist\<close> record per requirement of the group, in their order, in which the
  marker is \<open>(<marker of the requirement>) and <combined condition>\<close> when the
  requirement has a marker of its own, and the combined condition otherwise.
\<close>

theorem condition_merge:
  assumes "generate_requirements parse groups = (recs, None)"
    and "(key, deps) \<in> set groups"
    and "CHR '':'' \<notin> set e0" and "safe_extra e0 \<noteq> []"
    and "key = e0 @ '':'' @ c0 \<or> (key = e0 \<and> c0 = [])"
    and "condition =
           (if c0 \<noteq> [] then ''('' @ c0 @ '') and '' else [])
           @ ''extra == '' @ [quote] @ safe_extra e0 @ [quote]"
  shows "group_condition key = (safe_extra e0, condition)
   \<and> (\<exists>rs pre post. map parse deps = map Inr rs
        \<and> recs = pre
            @ [(''Provides-Extra'', safe_extra e0)]
            @ map (\<lambda>r. (''Requires-Dist'', str_requirement (r\<lparr>req_marker := Some
                     (case req_marker r of
                        None \<Rightarrow> condition
                      | Some m \<Rightarrow> ''('' @ m @ '') and '' @ condition)\<rparr>))) rs
            @ post)"
proof -
  have gc: "group_condition key = (safe_extra e0, condition)"
  proof (cases "key = e0 \<and> c0 = []")
    case True
    with assms(3,4,6) show ?thesis by (simp add: group_condition_plain)
  next
    case False
    with assms(5) have "key = e0 @ CHR '':'' # c0" by auto
    with assms(3,4,6) show ?thesis by (simp add: group_condition_colon)
  qed
  have ne: "condition \<noteq> []" using assms(6) by simp
  from generate_requirements_ok [OF assms(1)] have
    recs: "recs = concat (map (\<lambda>g. fst (group_records parse g)) groups)" and
    ok: "\<forall>g \<in> set groups. snd (group_records parse g) = None" by auto
  from assms(2) obtain xs ys where g: "groups = xs @ (key, deps) # ys"
    by (auto dest: split_list)
  from ok assms(2) have "snd (group_records parse (key, deps)) = None" by blast
  from group_records_with_extra [OF this gc assms(4) ne] obtain rs where
    p: "map parse deps = map Inr rs" and
    f: "fst (group_records parse (key, deps)) =
         [(''Provides-Extra'', safe_extra e0)]
         @ map (\<lambda>r. (''Requires-Dist'', str_requirement (r\<lparr>req_marker := Some
                  (case req_marker r of
                     None \<Rightarrow> condition
                   | Some m \<Rightarrow> ''('' @ m @ '') and '' @ condition)\<rparr>))) rs" by blast
  from recs g f have "recs = concat (map (\<lambda>g. fst (group_records parse g)) xs)
            @ [(''Provides-Extra'', safe_extra e0)]
            @ map (\<lambda>r. (''Requires-Dist'', str_requirement (r\<lparr>req_marker := Some
                     (case req_marker r of
                        None \<Rightarrow> condition
                      | Some m \<Rightarrow> ''('' @ m @ '') and '' @ condition)\<rparr>))) rs
            @ concat (map (\<lambda>g. fst (group_records parse g)) ys)"
    by simp
  with p gc show ?thesis by blast
qed

theorem condition_merge_witness:
  "generate_requirements
      (\<lambda>s. if s = ''enum34; os_name == posix''
            then Inr \<lparr>req_name = ''enum34'', req_extras = [], req_specifier = [],
                      req_url = None, req_marker = Some ''os_name == posix''\<rparr>
            else name_only s)
      [([], [''six'']),
       (''Win:python_version < 3'', [''enum34; os_name == posix'', ''colorama'']),
       (''test'', [''pytest''])]
     = ([(''Requires-Dist'', ''six''),
         (''Provides-Extra'', ''win''),
         (''Requires-Dist'',
          ''enum34; (os_name == posix) and (python_version < 3) and extra == ''
            @ [quote] @ ''win'' @ [quote]),
         (''Requires-Dist'',
          ''colorama; (python_version < 3) and extra == '' @ [quote] @ ''win'' @ [quote]),
         (''Provides-Extra'', ''test''),
         (''Requires-Dist'', ''pytest; extra == '' @ [quote] @ ''test'' @ [quote])], None)
   \<and> group_condition ''Win:python_version < 3''
     = (''win'', ''(python_version < 3) and extra == '' @ [quote] @ ''win'' @ [quote])
   \<and> group_condition ''test'' = (''test'', ''extra == '' @ [quote] @ ''test'' @ [quote])"
proof -
  let ?P = "\<lambda>s. if s = ''enum34; os_name == posix''
            then Inr \<lparr>req_name = ''enum34'', req_extras = [], req_specifier = [],
                      req_url = None, req_marker = Some ''os_name == posix''\<rparr>
            else name_only s"
  let ?G = "[([], [''six'']),
       (''Win:python_version < 3'', [''enum34; os_name == posix'', ''colorama'']),
       (''test'', [''pytest''])]"
  let ?R = "[(''Requires-Dist'', ''six''),
         (''Provides-Extra'', ''win''),
         (''Requires-Dist'',
          ''enum34; (os_name == posix) and (python_version < 3) and extra == ''
            @ [quote] @ ''win'' @ [quote]),
         (''Requires-Dist'',
          ''colorama; (python_version < 3) and extra == '' @ [quote] @ ''win'' @ [quote]),
         (''Provides-Extra'', ''test''),
         (''Requires-Dist'', ''pytest; extra == '' @ [quote] @ ''test'' @ [quote])]"
  have h: "generate_requirements ?P ?G = (?R, None)"
    by code_simp
  have s: "safe_extra ''Win'' = ''win''" "safe_extra ''test'' = ''test''"
    by code_simp+
  have 1: "group_condition ''Win:python_version < 3''
     = (safe_extra ''Win'',
        (if ''python_version < 3'' \<noteq> [] then ''('' @ ''python_version < 3'' @ '') and '' else [])
        @ ''extra == '' @ [quote] @ safe_extra ''Win'' @ [quote])"
    using condition_merge [OF h, of "''Win:python_version < 3''"
        "[''enum34; os_name == posix'', ''colorama'']" "''Win''" "''python_version < 3''"]
    by (simp add: s)
  have 2: "group_condition ''test''
     = (safe_extra ''test'',
        (if [] \<noteq> ([] :: string) then ''('' @ [] @ '') and '' else [])
        @ ''extra == '' @ [quote] @ safe_extra ''test'' @ [quote])"
    using condition_merge [OF h, of "''test''" "[''pytest'']" "''test''" "[]"]
    by (simp add: s)
  from h 1 2 show ?thesis by (simp add: s)
qed

section \<open>Claims about the requirement and entry-point builders\<close>

text \<open>
  Claim C9. When the metadata has a \<open>dependencies\<close> key, the base group (the empty
  name) of \<open>full_requires\<close> is the value of \<open>dependencies\<close>; the mapping, the records
  of METADATA and the text of requires.txt are the same whatever \<open>install_requires\<close>
  holds (or whether it is there at all); requires.txt starts with the lines of
  \<open>dependencies\<close>, and the records of METADATA contain, for the base group, one
  unconditioned \<open>Requires-Dist\<close> record per entry of \<open>dependencies\<close>. Likewise a named
  group of \<open>optional-dependencies\<close> is the group of that name in \<open>full_requires\<close>,
  whatever \<open>extras_require\<close> holds under the name.
\<close>

theorem dependencies_replace_install_requires:
  "(dependencies md = Some deps \<longrightarrow>
      map_of (full_requires md) [] = Some deps
      \<and> full_requires (md\<lparr>install_requires := ir\<rparr>) = full_requires md
      \<and> metadata_requirements parse (md\<lparr>install_requires := ir\<rparr>)
          = metadata_requirements parse md
      \<and> requires_txt_builder (md\<lparr>install_requires := ir\<rparr>) = requires_txt_builder md
      \<and> requires_txt_builder md
          = concat (map (\<lambda>dep. dep @ [newline]) deps)
            @ concat (map requires_section
                (sorted_items (filter (\<lambda>p. fst p \<noteq> []) (full_requires md))))
      \<and> (metadata_requirements parse md = (recs, None) \<longrightarrow>
            (\<exists>rs pre post. map parse deps = map Inr rs
               \<and> recs = pre @ map (\<lambda>r. (''Requires-Dist'', str_requirement r)) rs @ post)))
   \<and> (optional_dependencies md = Some opt \<and> distinct (map fst opt)
        \<and> (g, ds) \<in> set opt \<and> g \<noteq> [] \<longrightarrow>
      map_of (full_requires md) g = Some ds)"
proof (intro conjI impI)
  assume d: "dependencies md = Some deps"
  show "map_of (full_requires md) [] = Some deps"
    by (rule full_requires_base [OF d])
  show fr: "full_requires (md\<lparr>install_requires := ir\<rparr>) = full_requires md"
    by (rule full_requires_install_requires [OF d])
  show "metadata_requirements parse (md\<lparr>install_requires := ir\<rparr>)
          = metadata_requirements parse md"
    by (simp only: metadata_requirements_def fr)
  show "requires_txt_builder (md\<lparr>install_requires := ir\<rparr>) = requires_txt_builder md"
    by (simp only: requires_txt_builder_def fr)
  show "requires_txt_builder md
          = concat (map (\<lambda>dep. dep @ [newline]) deps)
            @ concat (map requires_section
                (sorted_items (filter (\<lambda>p. fst p \<noteq> []) (full_requires md))))"
    by (rule requires_txt_base_first [OF d])
  show "\<exists>rs pre post. map parse deps = map Inr rs
       \<and> recs = pre @ map (\<lambda>r. (''Requires-Dist'', str_requirement r)) rs @ post"
    if "metadata_requirements parse md = (recs, None)"
    by (rule metadata_base_records [OF d that])
next
  assume "optional_dependencies md = Some opt \<and> distinct (map fst opt)
        \<and> (g, ds) \<in> set opt \<and> g \<noteq> []"
  then show "map_of (full_requires md) g = Some ds"
    using full_requires_optional [of md opt g ds] by blast
qed

theorem dependencies_replace_install_requires_witness:
  "map_of (full_requires
      \<lparr>extras_require = Some [(''test'', [''nose''])],
       optional_dependencies = Some [(''test'', [''pytest''])],
       install_requires = Some [''old''], dependencies = Some [''six''],
       entry_points = None, scripts = None, gui_scripts = None\<rparr>) [] = Some [''six'']
   \<and> map_of (full_requires
      \<lparr>extras_require = Some [(''test'', [''nose''])],
       optional_dependencies = Some [(''test'', [''pytest''])],
       install_requires = Some [''old''], dependencies = Some [''six''],
       entry_points = None, scripts = None, gui_scripts = None\<rparr>) ''test'' = Some [''pytest'']
   \<and> requires_txt_builder
      \<lparr>extras_require = Some [(''test'', [''nose''])],
       optional_dependencies = Some [(''test'', [''pytest''])],
       install_requires = Some [''old''], dependencies = Some [''six''],
       entry_points = None, scripts = None, gui_scripts = None\<rparr>
     = ''six'' @ [newline] @ [newline] @ ''[test]'' @ [newline] @ ''pytest'' @ [newline]
   \<and> fst (metadata_requirements name_only
      \<lparr>extras_require = Some [(''test'', [''nose''])],
       optional_dependencies = Some [(''test'', [''pytest''])],
       install_requires = Some [''old''], dependencies = Some [''six''],
       entry_points = None, scripts = None, gui_scripts = None\<rparr>)
     = [(''Provides-Extra'', ''test''),
        (''Requires-Dist'', ''pytest; extra == '' @ [quote] @ ''test'' @ [quote]),
        (''Requires-Dist'', ''six'')]"
proof -
  let ?md = "\<lparr>extras_require = Some [(''test'', [''nose''])],
       optional_dependencies = Some [(''test'', [''pytest''])],
       install_requires = Some [''old''], dependencies = Some [''six''],
       entry_points = None, scripts = None, gui_scripts = None\<rparr>"
  let ?recs = "[(''Provides-Extra'', ''test''),
        (''Requires-Dist'', ''pytest; extra == '' @ [quote] @ ''test'' @ [quote]),
        (''Requires-Dist'', ''six'')]"
  note t = dependencies_replace_install_requires
      [of ?md "[''six'']" None name_only ?recs "[(''test'', [''pytest''])]" "''test''" "[''pytest'']"]
  have d: "dependencies ?md = Some [''six'']" by simp
  have o: "optional_dependencies ?md = Some [(''test'', [''pytest''])]
      \<and> distinct (map fst [(''test'', [''pytest''])])
      \<and> (''test'', [''pytest'']) \<in> set [(''test'', [''pytest''])] \<and> ''test'' \<noteq> []" by simp
  from t d have 1: "map_of (full_requires ?md) [] = Some [''six'']" by blast
  from t o have 2: "map_of (full_requires ?md) ''test'' = Some [''pytest'']" by blast
  from t d have 3: "requires_txt_builder ?md
          = concat (map (\<lambda>dep. dep @ [newline]) [''six''])
            @ concat (map requires_section
                (sorted_items (filter (\<lambda>p. fst p \<noteq> []) (full_requires ?md))))" by blast
  have 4: "concat (map (\<lambda>dep. dep @ [newline]) [''six''])
            @ concat (map requires_section
                (sorted_items (filter (\<lambda>p. fst p \<noteq> []) (full_requires ?md))))
      = ''six'' @ [newline] @ [newline] @ ''[test]'' @ [newline] @ ''pytest'' @ [newline]"
    by code_simp
  have 5: "fst (metadata_requirements name_only ?md) = ?recs" by code_simp
  from 1 2 3 4 5 show ?thesis by (simp only:)
qed

text \<open>
  Claim C10. When the metadata has a \<open>scripts\<close> key, the group \<open>console_scripts\<close> of
  the entry points is the value of \<open>scripts\<close>, \<open>entry_points.txt\<close> contains the section
  \<open>[console_scripts]\<close> followed by the lines of \<open>scripts\<close>, and a \<open>console_scripts\<close>
  group supplied in \<open>entry_points\<close> has no influence: replacing its value by any other
  changes neither the mapping nor the file. The same holds for \<open>gui-scripts\<close> and the
  group \<open>gui_scripts\<close>.
\<close>

theorem scripts_replace_entry_point_groups:
  assumes "entry_points md = Some d" and "distinct (map fst d)"
  shows "(scripts md = Some s \<longrightarrow>
      map_of (entry_points_dict md) ''console_scripts'' = Some s
      \<and> (\<exists>pre post. entry_points_builder md
            = pre @ ''[console_scripts]'' @ [newline] @ items_lines s @ post)
      \<and> (''console_scripts'' \<in> fst ` set d \<longrightarrow>
          entry_points_dict (md\<lparr>entry_points := Some (AList.update ''console_scripts'' x d)\<rparr>)
            = entry_points_dict md
          \<and> entry_points_builder (md\<lparr>entry_points := Some (AList.update ''console_scripts'' x d)\<rparr>)
            = entry_points_builder md))
   \<and> (gui_scripts md = Some s \<longrightarrow>
      map_of (entry_points_dict md) ''gui_scripts'' = Some s
      \<and> (\<exists>pre post. entry_points_builder md
            = pre @ ''[gui_scripts]'' @ [newline] @ items_lines s @ post)
      \<and> (''gui_scripts'' \<in> fst ` set d \<longrightarrow>
          entry_points_dict (md\<lparr>entry_points := Some (AList.update ''gui_scripts'' x d)\<rparr>)
            = entry_points_dict md
          \<and> entry_points_builder (md\<lparr>entry_points := Some (AList.update ''gui_scripts'' x d)\<rparr>)
            = entry_points_builder md))"
proof -
  have d0: "dict_update [] d = d"
    using dict_update_empty [of "[]" d] assms(2) by simp
  have d1: "dict_update [] (AList.update k x d) = AList.update k x d" for k
    using dict_update_empty [of "[]" "AList.update k x d"] distinct_update [OF assms(2)]
    by simp
  have c: "map_of (entry_points_dict md) ''console_scripts'' = Some s"
    if "scripts md = Some s"
    using that assms(1)
    by (simp add: entry_points_dict_def Let_def update_conv' split: option.splits)
  have g: "map_of (entry_points_dict md) ''gui_scripts'' = Some s"
    if "gui_scripts md = Some s"
    using that assms(1)
    by (simp add: entry_points_dict_def Let_def update_conv' split: option.splits)
  have ce: "entry_points_dict (md\<lparr>entry_points := Some (AList.update ''console_scripts'' x d)\<rparr>)
          = entry_points_dict md" if "scripts md = Some s"
    using that assms(1) by (simp add: entry_points_dict_def Let_def d0 d1 split: option.splits)
  have ge: "entry_points_dict (md\<lparr>entry_points := Some (AList.update ''gui_scripts'' x d)\<rparr>)
          = entry_points_dict md" if "gui_scripts md = Some s" "''gui_scripts'' \<in> fst ` set d"
    using that assms(1)
    by (simp add: entry_points_dict_def Let_def d0 d1 update_update_mem split: option.splits)
  show ?thesis
    using c g ce ge entry_points_section_present [of md "''console_scripts''" s]
      entry_points_section_present [of md "''gui_scripts''" s]
    by (simp add: entry_points_builder_def)
qed

theorem scripts_replace_entry_point_groups_witness:
  "map_of (entry_points_dict
      \<lparr>extras_require = None, optional_dependencies = None,
       install_requires = None, dependencies = None,
       entry_points = Some [(''console_scripts'', ItemTable [(''oldtool'', ''old.mod:main'')]),
                            (''gui_scripts'', ItemList [''oldgui = old.gui:main''])],
       scripts = Some (ItemTable [(''mytool'', ''pkg.mod:main'')]),
       gui_scripts = Some (ItemTable [(''mygui'', ''pkg.gui:main'')])\<rparr>) ''console_scripts''
     = Some (ItemTable [(''mytool'', ''pkg.mod:main'')])
   \<and> map_of (entry_points_dict
      \<lparr>extras_require = None, optional_dependencies = None,
       install_requires = None, dependencies = None,
       entry_points = Some [(''console_scripts'', ItemTable [(''oldtool'', ''old.mod:main'')]),
                            (''gui_scripts'', ItemList [''oldgui = old.gui:main''])],
       scripts = Some (ItemTable [(''mytool'', ''pkg.mod:main'')]),
       gui_scripts = Some (ItemTable [(''mygui'', ''pkg.gui:main'')])\<rparr>) ''gui_scripts''
     = Some (ItemTable [(''mygui'', ''pkg.gui:main'')])
   \<and> entry_points_builder
      \<lparr>extras_require = None, optional_dependencies = None,
       install_requires = None, dependencies = None,
       entry_points = Some [(''console_scripts'', ItemTable [(''oldtool'', ''old.mod:main'')]),
                            (''gui_scripts'', ItemList [''oldgui = old.gui:main''])],
       scripts = Some (ItemTable [(''mytool'', ''pkg.mod:main'')]),
       gui_scripts = Some (ItemTable [(''mygui'', ''pkg.gui:main'')])\<rparr>
     = ''[console_scripts]'' @ [newline] @ ''mytool = pkg.mod:main'' @ [newline]
       @ ''[gui_scripts]'' @ [newline] @ ''mygui = pkg.gui:main'' @ [newline]"
proof -
  let ?d = "[(''console_scripts'', ItemTable [(''oldtool'', ''old.mod:main'')]),
            (''gui_scripts'', ItemList [''oldgui = old.gui:main''])]"
  let ?s = "ItemTable [(''mytool'', ''pkg.mod:main'')]"
  let ?g = "ItemTable [(''mygui'', ''pkg.gui:main'')]"
  let ?md = "\<lparr>extras_require = None, optional_dependencies = None,
       install_requires = None, dependencies = None,
       entry_points = Some ?d, scripts = Some ?s, gui_scripts = Some ?g\<rparr>"
  have e: "entry_points ?md = Some ?d" by simp
  have dd: "distinct (map fst ?d)" by simp
  note a = scripts_replace_entry_point_groups [of ?md ?d ?s "ItemList []", OF e dd]
  note b = scripts_replace_entry_point_groups [of ?md ?d ?g "ItemList []", OF e dd]
  have sc: "scripts ?md = Some ?s" and gu: "gui_scripts ?md = Some ?g" by simp_all
  from a sc have 1: "map_of (entry_points_dict ?md) ''console_scripts'' = Some ?s" by blast
  from b gu have 2: "map_of (entry_points_dict ?md) ''gui_scripts'' = Some ?g" by blast
  have 3: "entry_points_builder ?md
     = ''[console_scripts]'' @ [newline] @ ''mytool = pkg.mod:main'' @ [newline]
       @ ''[gui_scripts]'' @ [newline] @ ''mygui = pkg.gui:main'' @ [newline]"
    by code_simp
  from 1 2 3 show ?thesis by (simp only:)
qed

section \<open>Claims about the tag resolver\<close>

text \<open>
  Claim C4. For a purelib build \<open>get_tag\<close> returns exactly \<open>py3-none-any\<close> and stores
  it in \<open>WHEEL_TAG\<close>. Whenever \<open>get_tag\<close> returns a tag, \<open>ROOT_IS_PURELIB\<close> is true if and
  only if that tag ends with \<open>none-any\<close>; for the platlib direction the platform name of
  the host is taken as \<open>wheel\<close> produces it, without a hyphen (hyphens and dots are
  replaced by underscores) and different from \<open>any\<close>. When \<open>ROOT_IS_PURELIB\<close> is not
  preset and \<open>WHEEL_TAG\<close> is, \<open>enscons_defaults\<close> sets \<open>ROOT_IS_PURELIB\<close> to whether
  \<open>WHEEL_TAG\<close> ends with \<open>none-any\<close>.
\<close>

theorem purelib_iff_tag_none_any:
  "(ROOT_IS_PURELIB e = Some True \<longrightarrow>
      get_tag h e = Inr (''py3-none-any'', e\<lparr>WHEEL_TAG := Some ''py3-none-any''\<rparr>))
   \<and> (ROOT_IS_PURELIB e = Some b \<and> get_tag h e = Inr (tag, e')
        \<and> (\<forall>p. CHR ''-'' \<notin> set (get_platform h p) \<and> get_platform h p \<noteq> ''any'') \<longrightarrow>
      (b \<longleftrightarrow> endswith tag ''none-any'') \<and> ROOT_IS_PURELIB e' = Some b \<and> WHEEL_TAG e' = Some tag)
   \<and> (\<not> ENSCONS_DEFAULTS e \<and> ROOT_IS_PURELIB e = None \<and> WHEEL_TAG e = Some t \<longrightarrow>
      (\<exists>e1. enscons_defaults_purelib h e = Inr e1
          \<and> ROOT_IS_PURELIB e1 = Some (endswith t ''none-any'') \<and> WHEEL_TAG e1 = Some t))"
proof -
  have 1: "get_tag h e = Inr (''py3-none-any'', e\<lparr>WHEEL_TAG := Some ''py3-none-any''\<rparr>)"
    if "ROOT_IS_PURELIB e = Some True"
    using that by (simp add: get_tag_def)
  have 2: "(b \<longleftrightarrow> endswith tag ''none-any'') \<and> ROOT_IS_PURELIB e' = Some b
      \<and> WHEEL_TAG e' = Some tag"
    if a: "ROOT_IS_PURELIB e = Some b \<and> get_tag h e = Inr (tag, e')
        \<and> (\<forall>p. CHR ''-'' \<notin> set (get_platform h p) \<and> get_platform h p \<noteq> ''any'')"
  proof (cases b)
    case True
    with a have "tag = ''py3-none-any''" "e' = e\<lparr>WHEEL_TAG := Some tag\<rparr>"
      by (auto simp: get_tag_def)
    with True a show ?thesis by (simp add: endswith_def)
  next
    case False
    with a have pt: "platlib_tag h e = Inr tag" and e': "e' = e\<lparr>WHEEL_TAG := Some tag\<rparr>"
      by (auto simp: get_tag_def split: sum.splits)
    from platlib_tag_form [OF pt] obtain impl abi wp where
      "tag = join ''-'' [impl, abi, get_platform h wp]" by blast
    with a platform_tag_not_none_any [of "get_platform h wp" impl abi]
    have "\<not> endswith tag ''none-any''" by simp
    with False a e' show ?thesis by simp
  qed
  have 3: "\<exists>e1. enscons_defaults_purelib h e = Inr e1
          \<and> ROOT_IS_PURELIB e1 = Some (endswith t ''none-any'') \<and> WHEEL_TAG e1 = Some t"
    if "\<not> ENSCONS_DEFAULTS e \<and> ROOT_IS_PURELIB e = None \<and> WHEEL_TAG e = Some t"
    using that by (simp add: enscons_defaults_purelib_def Let_def)
  from 1 2 3 show ?thesis by blast
qed

theorem purelib_iff_tag_none_any_witness:
  "get_tag linux_host (sample_env\<lparr>ROOT_IS_PURELIB := Some True\<rparr>)
     = Inr (''py3-none-any'',
            sample_env\<lparr>ROOT_IS_PURELIB := Some True, WHEEL_TAG := Some ''py3-none-any''\<rparr>)
   \<and> endswith ''py3-none-any'' ''none-any''
   \<and> get_tag linux_host sample_env
     = Inr (''cp38-abi3-linux_x86_64'', sample_env\<lparr>WHEEL_TAG := Some ''cp38-abi3-linux_x86_64''\<rparr>)
   \<and> \<not> endswith ''cp38-abi3-linux_x86_64'' ''none-any''
   \<and> (\<exists>e1. enscons_defaults_purelib linux_host
          (sample_env\<lparr>ROOT_IS_PURELIB := None, WHEEL_TAG := Some ''py2.py3-none-any'',
                      ENSCONS_DEFAULTS := False\<rparr>) = Inr e1
         \<and> ROOT_IS_PURELIB e1 = Some True \<and> WHEEL_TAG e1 = Some ''py2.py3-none-any'')"
proof -
  let ?pure = "sample_env\<lparr>ROOT_IS_PURELIB := Some True\<rparr>"
  let ?unset = "sample_env\<lparr>ROOT_IS_PURELIB := None, WHEEL_TAG := Some ''py2.py3-none-any'',
                      ENSCONS_DEFAULTS := False\<rparr>"
  let ?plat' = "sample_env\<lparr>WHEEL_TAG := Some ''cp38-abi3-linux_x86_64''\<rparr>"
  have host: "\<forall>p. CHR ''-'' \<notin> set (get_platform linux_host p)
      \<and> get_platform linux_host p \<noteq> ''any''"
    by (simp add: linux_host_def)
  have p: "ROOT_IS_PURELIB ?pure = Some True" by simp
  have q: "ROOT_IS_PURELIB sample_env = Some False" by (simp add: sample_env_def)
  have g: "get_tag linux_host sample_env = Inr (''cp38-abi3-linux_x86_64'', ?plat')"
    by code_simp
  have u: "\<not> ENSCONS_DEFAULTS ?unset \<and> ROOT_IS_PURELIB ?unset = None
      \<and> WHEEL_TAG ?unset = Some ''py2.py3-none-any''" by simp
  have e: "endswith ''py2.py3-none-any'' ''none-any''" "endswith ''py3-none-any'' ''none-any''"
    by (simp_all add: endswith_def)
  note a = purelib_iff_tag_none_any [of ?pure linux_host True "''py3-none-any''" ?pure "''x''"]
  note b = purelib_iff_tag_none_any [of sample_env linux_host False "''cp38-abi3-linux_x86_64''"
      ?plat' "''x''"]
  note c = purelib_iff_tag_none_any [of ?unset linux_host True "''x''" ?unset "''py2.py3-none-any''"]
  from a p have 1: "get_tag linux_host ?pure
     = Inr (''py3-none-any'', ?pure\<lparr>WHEEL_TAG := Some ''py3-none-any''\<rparr>)" by blast
  from b q g host have 2: "\<not> endswith ''cp38-abi3-linux_x86_64'' ''none-any''" by blast
  from c u have 3: "\<exists>e1. enscons_defaults_purelib linux_host ?unset = Inr e1
         \<and> ROOT_IS_PURELIB e1 = Some (endswith ''py2.py3-none-any'' ''none-any'')
         \<and> WHEEL_TAG e1 = Some ''py2.py3-none-any''" by blast
  from 1 2 3 g e show ?thesis by simp
qed

text \<open>
  Claim C6. For a platlib build with a requested limited-API target (and the wheel path
  set, as \<open>init_wheel\<close> does), \<open>get_tag\<close> raises if and only if the target is not a
  pair \<open>(3, minor)\<close> of integers with \<open>minor \<ge> 2\<close>: a target that is not a tuple of
  two elements raises \<open>target is not a 2-tuple\<close>, a pair of integers raises
  \<open>cannot target abi below 3.2\<close> exactly when \<open>major \<noteq> 3\<close> or \<open>minor < 2\<close>, and every
  valid target gives the tag \<open>cp3<minor>-abi3-<platform>\<close>.
\<close>

theorem limited_api_target_failure:
  assumes "ROOT_IS_PURELIB e = Some False" and "WHEEL_PATH e = Some wp"
    and "LIMITED_API_TARGET e = Some target"
  shows "(isl (get_tag h e)
            \<longleftrightarrow> \<not> (\<exists>minor. target = PyTuple [AInt 3, AInt minor] \<and> 2 \<le> minor))
   \<and> ((\<forall>a b. target \<noteq> PyTuple [a, b]) \<longrightarrow>
        get_tag h e = Inl (Exception ''target is not a 2-tuple''))
   \<and> (target = PyTuple [AInt major, AInt minor] \<longrightarrow>
        (get_tag h e = Inl (Exception ''cannot target abi below 3.2'')
           \<longleftrightarrow> major \<noteq> 3 \<or> minor < 2)
        \<and> (major = 3 \<and> 2 \<le> minor \<longrightarrow>
             get_tag h e =
               Inr (''cp3'' @ str_int minor @ ''-abi3-'' @ get_platform h wp,
                    e\<lparr>WHEEL_TAG :=
                        Some (''cp3'' @ str_int minor @ ''-abi3-'' @ get_platform h wp)\<rparr>)))"
proof -
  note g = get_tag_limited [OF assms, of h]
  have three: "str_int 3 = ''3''" by code_simp
  have 1: "isl (get_tag h e)
            \<longleftrightarrow> \<not> (\<exists>minor. target = PyTuple [AInt 3, AInt minor] \<and> 2 \<le> minor)"
    using limited_api_impl_ok [of target]
    by (cases "limited_api_impl target") (simp_all add: g)
  have 2: "get_tag h e = Inl (Exception ''target is not a 2-tuple'')"
    if "\<forall>a b. target \<noteq> PyTuple [a, b]"
    using limited_api_impl_not_pair [OF that] by (simp add: g)
  have 3: "(get_tag h e = Inl (Exception ''cannot target abi below 3.2'')
           \<longleftrightarrow> major \<noteq> 3 \<or> minor < 2)
        \<and> (major = 3 \<and> 2 \<le> minor \<longrightarrow>
             get_tag h e =
               Inr (''cp3'' @ str_int minor @ ''-abi3-'' @ get_platform h wp,
                    e\<lparr>WHEEL_TAG :=
                        Some (''cp3'' @ str_int minor @ ''-abi3-'' @ get_platform h wp)\<rparr>))"
    if "target = PyTuple [AInt major, AInt minor]"
    using that by (auto simp: g limited_api_impl_int_pair three)
  from 1 2 3 show ?thesis by blast
qed

theorem limited_api_target_failure_witness:
  "get_tag linux_host sample_env
     = Inr (''cp38-abi3-linux_x86_64'', sample_env\<lparr>WHEEL_TAG := Some ''cp38-abi3-linux_x86_64''\<rparr>)
   \<and> \<not> isl (get_tag linux_host sample_env)
   \<and> get_tag linux_host (sample_env\<lparr>LIMITED_API_TARGET := Some (PyTuple [AInt 3, AInt 1])\<rparr>)
     = Inl (Exception ''cannot target abi below 3.2'')
   \<and> get_tag linux_host (sample_env\<lparr>LIMITED_API_TARGET := Some (PyTuple [AInt 2, AInt 7])\<rparr>)
     = Inl (Exception ''cannot target abi below 3.2'')
   \<and> get_tag linux_host (sample_env\<lparr>LIMITED_API_TARGET := Some (PyTuple [AInt 3])\<rparr>)
     = Inl (Exception ''target is not a 2-tuple'')
   \<and> get_tag linux_host (sample_env\<lparr>LIMITED_API_TARGET := Some (PyAtom (AStr ''3.8''))\<rparr>)
     = Inl (Exception ''target is not a 2-tuple'')
   \<and> isl (get_tag linux_host
        (sample_env\<lparr>LIMITED_API_TARGET := Some (PyTuple [AInt 3, AStr ''8''])\<rparr>))"
proof -
  have s: "ROOT_IS_PURELIB (sample_env\<lparr>LIMITED_API_TARGET := Some t\<rparr>) = Some False"
    "WHEEL_PATH (sample_env\<lparr>LIMITED_API_TARGET := Some t\<rparr>) = Some ''build/wheel''"
    "LIMITED_API_TARGET (sample_env\<lparr>LIMITED_API_TARGET := Some t\<rparr>) = Some t" for t
    by (simp_all add: sample_env_def)
  have id: "sample_env\<lparr>LIMITED_API_TARGET := Some (PyTuple [AInt 3, AInt 8])\<rparr> = sample_env"
    by (simp add: sample_env_def)
  have p: "get_platform linux_host ''build/wheel'' = ''linux_x86_64''"
    by (simp add: linux_host_def)
  have eight: "str_int 8 = ''8''" by code_simp
  from limited_api_target_failure [where h = linux_host and target = "PyTuple [AInt 3, AInt 8]" and major = 3 and minor = 8, OF s]
  have 1: "get_tag linux_host sample_env
     = Inr (''cp38-abi3-linux_x86_64'', sample_env\<lparr>WHEEL_TAG := Some ''cp38-abi3-linux_x86_64''\<rparr>)"
    and 2: "\<not> isl (get_tag linux_host sample_env)"
    by (simp_all add: id p eight)
  from limited_api_target_failure [where h = linux_host and target = "PyTuple [AInt 3, AInt 1]" and major = 3 and minor = 1, OF s]
  have 3: "get_tag linux_host (sample_env\<lparr>LIMITED_API_TARGET := Some (PyTuple [AInt 3, AInt 1])\<rparr>)
     = Inl (Exception ''cannot target abi below 3.2'')" by simp
  from limited_api_target_failure [where h = linux_host and target = "PyTuple [AInt 2, AInt 7]" and major = 2 and minor = 7, OF s]
  have 4: "get_tag linux_host (sample_env\<lparr>LIMITED_API_TARGET := Some (PyTuple [AInt 2, AInt 7])\<rparr>)
     = Inl (Exception ''cannot target abi below 3.2'')" by simp
  from limited_api_target_failure [where h = linux_host and target = "PyTuple [AInt 3]" and major = 0 and minor = 0, OF s]
  have 5: "get_tag linux_host (sample_env\<lparr>LIMITED_API_TARGET := Some (PyTuple [AInt 3])\<rparr>)
     = Inl (Exception ''target is not a 2-tuple'')" by simp
  from limited_api_target_failure [where h = linux_host and target = "PyAtom (AStr ''3.8'')" and major = 0 and minor = 0, OF s]
  have 6: "get_tag linux_host (sample_env\<lparr>LIMITED_API_TARGET := Some (PyAtom (AStr ''3.8''))\<rparr>)
     = Inl (Exception ''target is not a 2-tuple'')" by simp
  from limited_api_target_failure [where h = linux_host and target = "PyTuple [AInt 3, AStr ''8'']" and major = 0 and minor = 0, OF s]
  have 7: "isl (get_tag linux_host
        (sample_env\<lparr>LIMITED_API_TARGET := Some (PyTuple [AInt 3, AStr ''8''])\<rparr>))" by simp
  from 1 2 3 4 5 6 7 show ?thesis by blast
qed

text \<open>
  Claim C7. A platlib build with the limited-API target \<open>(3, 8)\<close> on a host whose
  platform is \<open>linux_x86_64\<close> resolves the tag \<open>cp38-abi3-linux_x86_64\<close>, and
  \<open>correct_wheel_tags\<close> for the name and version \<open>sample-0.1\<close> renames the wheel, in
  its directory, to the file name \<open>sample-0.1-cp38-abi3-linux_x86_64.whl\<close>.
\<close>

theorem abi3_wheel_renaming:
  assumes "ROOT_IS_PURELIB e = Some False" and "WHEEL_PATH e = Some wp"
    and "get_platform h wp = ''linux_x86_64''"
    and "LIMITED_API_TARGET e = Some (PyTuple [AInt 3, AInt 8])"
    and "PACKAGE_NAMEVER e = Some ''sample-0.1''"
  shows "get_tag h e =
       Inr (''cp38-abi3-linux_x86_64'', e\<lparr>WHEEL_TAG := Some ''cp38-abi3-linux_x86_64''\<rparr>)
   \<and> correct_wheel_tags h e file =
       Inr (path_join (fst (path_split file)) ''sample-0.1-cp38-abi3-linux_x86_64.whl'',
            e\<lparr>WHEEL_TAG := Some ''cp38-abi3-linux_x86_64''\<rparr>)
   \<and> snd (path_split
        (path_join (fst (path_split file)) ''sample-0.1-cp38-abi3-linux_x86_64.whl''))
       = ''sample-0.1-cp38-abi3-linux_x86_64.whl''"
proof -
  have i: "limited_api_impl (PyTuple [AInt 3, AInt 8]) = Inr ''cp38''"
    by code_simp
  have g: "get_tag h e =
       Inr (''cp38-abi3-linux_x86_64'', e\<lparr>WHEEL_TAG := Some ''cp38-abi3-linux_x86_64''\<rparr>)"
    using get_tag_limited [OF assms(1,2,4), of h] by (simp add: i assms(3))
  have c: "correct_wheel_tags h e file =
       Inr (path_join (fst (path_split file)) ''sample-0.1-cp38-abi3-linux_x86_64.whl'',
            e\<lparr>WHEEL_TAG := Some ''cp38-abi3-linux_x86_64''\<rparr>)"
    by (simp add: correct_wheel_tags_def g assms(5) join_def split: prod.splits)
  have b: "snd (path_split
        (path_join (fst (path_split file)) ''sample-0.1-cp38-abi3-linux_x86_64.whl''))
       = ''sample-0.1-cp38-abi3-linux_x86_64.whl''"
    by (rule path_join_basename) simp_all
  from g c b show ?thesis by blast
qed

theorem abi3_wheel_renaming_witness:
  "get_tag linux_host sample_env
     = Inr (''cp38-abi3-linux_x86_64'', sample_env\<lparr>WHEEL_TAG := Some ''cp38-abi3-linux_x86_64''\<rparr>)
   \<and> correct_wheel_tags linux_host sample_env ''dist/sample-0.1.whl''
     = Inr (''dist/sample-0.1-cp38-abi3-linux_x86_64.whl'',
            sample_env\<lparr>WHEEL_TAG := Some ''cp38-abi3-linux_x86_64''\<rparr>)
   \<and> snd (path_split ''dist/sample-0.1-cp38-abi3-linux_x86_64.whl'')
     = ''sample-0.1-cp38-abi3-linux_x86_64.whl''"
proof -
  have a: "ROOT_IS_PURELIB sample_env = Some False" "WHEEL_PATH sample_env = Some ''build/wheel''"
    "get_platform linux_host ''build/wheel'' = ''linux_x86_64''"
    "LIMITED_API_TARGET sample_env = Some (PyTuple [AInt 3, AInt 8])"
    "PACKAGE_NAMEVER sample_env = Some ''sample-0.1''"
    by (simp_all add: sample_env_def linux_host_def)
  have j: "path_join (fst (path_split ''dist/sample-0.1.whl''))
      ''sample-0.1-cp38-abi3-linux_x86_64.whl'' = ''dist/sample-0.1-cp38-abi3-linux_x86_64.whl''"
    by code_simp
  from abi3_wheel_renaming [OF a, of "''dist/sample-0.1.whl''"]
  show ?thesis unfolding j by (simp only:)
qed

section \<open>Claims about the manifest\<close>



end
